theory Spec2Isabelle
  imports Complex_Main "HOL-Library.AList"
begin

section \<open>The request rate limiter of \<^verbatim>\<open>middleware.ts\<close>\<close>

text \<open>
  The module keeps one process-wide \<^verbatim>\<open>Map\<close> from client key to a window record
  \<^verbatim>\<open>{ count, resetTime }\<close>. The model passes that map explicitly: every function that
  reads or writes \<^verbatim>\<open>rateLimitStore\<close> takes the store and returns the store it leaves
  behind. JavaScript numbers are kept as \<^typ>\<open>int\<close>: counters and millisecond
  timestamps are integers far below \<open>2 ^ 53\<close>, where doubles are exact.
\<close>

subsection \<open>Data\<close>

record window_record =
  count :: int
  resetTime :: int

type_synonym store = "string \<rightharpoonup> window_record"

text \<open>
  \<^verbatim>\<open>RATE_LIMIT\<close> is a module constant. The functions below take the configuration as a
  parameter, so that statements about any window length and any quota can be made; the
  constant of the source is \<open>RATE_LIMIT\<close>.
\<close>

record config =
  windowMs :: int
  maxRequests :: int
  skipSuccessfulRequests :: bool

definition RATE_LIMIT :: config where
  "RATE_LIMIT = \<lparr>windowMs = 60 * 1000, maxRequests = 100, skipSuccessfulRequests = False\<rparr>"

text \<open>
  Of a \<^verbatim>\<open>NextRequest\<close> the middleware reads three things: the path, the
  \<^verbatim>\<open>x-forwarded-for\<close> header (\<^verbatim>\<open>headers.get\<close> gives \<^verbatim>\<open>null\<close> when it is missing) and
  \<^verbatim>\<open>request.ip\<close> (a string or \<^verbatim>\<open>undefined\<close>).
\<close>

record request =
  pathname :: string
  x_forwarded_for :: "string option"
  ip :: "string option"

text \<open>
  Header and body values are strings that the source renders from numbers and dates.
  The rendering is the runtime's, so a rendered value is kept as what it renders:
  \<open>NumStr n\<close> is \<^verbatim>\<open>n.toString()\<close> and \<open>IsoStr t\<close> is
  \<^verbatim>\<open>new Date(t).toISOString()\<close>; \<open>Str\<close> is a string literal of the source.
  (\<^verbatim>\<open>toISOString\<close> renders every time value, that is every \<open>t\<close> within
  \<open>8.64 * 10^15\<close> ms of the epoch; the values rendered here are clock readings plus a
  window length.)
\<close>

datatype hval = Str string | NumStr int | IsoStr int

type_synonym headers = "(string \<times> hval) list"

record json_body =
  error :: string
  message :: "hval list"
  retryAfter :: int

text \<open>
  \<open>Json b st hs\<close> is \<^verbatim>\<open>NextResponse.json(b, { status: st, headers: hs })\<close>;
  \<open>Next hs\<close> is \<^verbatim>\<open>NextResponse.next()\<close> with the headers \<open>hs\<close> set on it.
\<close>

datatype response = Json json_body int headers | Next headers

subsection \<open>Key derivation\<close>

text \<open>\<^verbatim>\<open>String.prototype.split\<close> with a one-character separator.\<close>

fun split :: "char \<Rightarrow> string \<Rightarrow> string list" where
  "split sep [] = [[]]"
| "split sep (c # cs) =
     (if c = sep then [] # split sep cs
      else (case split sep cs of [] \<Rightarrow> [[c]] | p # ps \<Rightarrow> (c # p) # ps))"

text \<open>
  Truthiness of a string that may be \<^verbatim>\<open>null\<close> or \<^verbatim>\<open>undefined\<close>: the empty string is
  falsy, like the missing value.
\<close>

fun truthy :: "string option \<Rightarrow> bool" where
  "truthy None = False"
| "truthy (Some v) = (v \<noteq> [])"

text \<open>
  \<^verbatim>\<open>xs[0]\<close> in a template literal: an empty array gives \<^verbatim>\<open>undefined\<close>, which the
  template prints as such.
\<close>

fun first_entry :: "string list \<Rightarrow> string" where
  "first_entry [] = ''undefined''"
| "first_entry (p # ps) = p"

definition getRateLimitKey :: "request \<Rightarrow> string" where
  "getRateLimitKey request =
     (let forwarded = x_forwarded_for request;
          ip' = (if truthy forwarded
                 then first_entry (split CHR '','' (case forwarded of Some f \<Rightarrow> f | None \<Rightarrow> []))
                 else if truthy (ip request)
                      then (case ip request of Some a \<Rightarrow> a | None \<Rightarrow> [])
                      else ''unknown'')
      in ''rate_limit:'' @ ip')"

subsection \<open>The fixed-window counter\<close>

text \<open>
  \<open>isRateLimited cfg now s key\<close>: \<open>now\<close> is what \<^verbatim>\<open>Date.now()\<close> returns in the call.
  The result is the boolean of the source and the store after the call.
  \<^verbatim>\<open>record.count++\<close> updates the object that the map holds, so it is an update of the
  store at \<open>key\<close>.
\<close>

definition isRateLimited :: "config \<Rightarrow> int \<Rightarrow> store \<Rightarrow> string \<Rightarrow> bool \<times> store" where
  "isRateLimited cfg now s key =
     (case s key of
        None \<Rightarrow>
          (False, s(key \<mapsto> \<lparr>count = 1, resetTime = now + windowMs cfg\<rparr>))
      | Some record \<Rightarrow>
          if now > resetTime record
          then (False, s(key \<mapsto> \<lparr>count = 1, resetTime = now + windowMs cfg\<rparr>))
          else if count record \<ge> maxRequests cfg
          then (True, s)
          else (False, s(key \<mapsto> record\<lparr>count := count record + 1\<rparr>)))"

subsection \<open>The middleware\<close>

definition startsWith :: "string \<Rightarrow> string \<Rightarrow> bool" where
  "startsWith str p = (take (length p) str = p)"

text \<open>\<^verbatim>\<open>headers.set(name, value)\<close>: replaces the value of a header that is there.\<close>

definition set_header :: "string \<Rightarrow> hval \<Rightarrow> headers \<Rightarrow> headers" where
  "set_header name v hs = AList.update name v hs"

definition get_header :: "string \<Rightarrow> response \<Rightarrow> hval option" where
  "get_header name resp = (case resp of Json b st hs \<Rightarrow> map_of hs name | Next hs \<Rightarrow> map_of hs name)"

text \<open>\<^verbatim>\<open>Math.ceil(RATE_LIMIT.windowMs / 1000)\<close>.\<close>

definition retryAfterSeconds :: "config \<Rightarrow> int" where
  "retryAfterSeconds cfg = \<lceil>real_of_int (windowMs cfg) / 1000\<rceil>"

text \<open>The 429 response of lines 48 to 63; \<open>now2\<close> is the clock reading of line 60.\<close>

definition tooManyRequests :: "config \<Rightarrow> int \<Rightarrow> response" where
  "tooManyRequests cfg now2 =
     Json \<lparr>error = ''Too many requests'',
           message = [Str ''Rate limit exceeded. Maximum '', NumStr (maxRequests cfg),
                      Str '' requests per minute.''],
           retryAfter = retryAfterSeconds cfg\<rparr>
          429
          [(''Retry-After'', NumStr (retryAfterSeconds cfg)),
           (''X-RateLimit-Limit'', NumStr (maxRequests cfg)),
           (''X-RateLimit-Remaining'', Str ''0''),
           (''X-RateLimit-Reset'', IsoStr (now2 + windowMs cfg))]"

text \<open>The response of an admitted API request, lines 69 to 73.\<close>

definition rateLimitHeaders :: "config \<Rightarrow> window_record \<Rightarrow> response" where
  "rateLimitHeaders cfg record =
     Next (set_header ''X-RateLimit-Reset'' (IsoStr (resetTime record))
          (set_header ''X-RateLimit-Remaining'' (NumStr (maxRequests cfg - count record))
          (set_header ''X-RateLimit-Limit'' (NumStr (maxRequests cfg)) [])))"

text \<open>Lines 77 to 93: the security headers, and the CORS headers on an API path.\<close>

definition securityHeaders :: "request \<Rightarrow> response" where
  "securityHeaders request =
     (let hs = set_header ''Referrer-Policy'' (Str ''strict-origin-when-cross-origin'')
              (set_header ''X-XSS-Protection'' (Str ''1; mode=block'')
              (set_header ''X-Frame-Options'' (Str ''DENY'')
              (set_header ''X-Content-Type-Options'' (Str ''nosniff'') [])));
          hs' = (if startsWith (pathname request) ''/api/''
                 then set_header ''Access-Control-Allow-Headers'' (Str ''Content-Type, Authorization'')
                     (set_header ''Access-Control-Allow-Methods'' (Str ''GET, POST, PUT, DELETE, OPTIONS'')
                     (set_header ''Access-Control-Allow-Origin'' (Str ''*'') hs))
                 else hs)
      in Next hs')"

text \<open>
  \<open>middleware cfg now now2 s request\<close>. The source reads the clock twice on a
  rejection: in \<^verbatim>\<open>isRateLimited\<close> (\<open>now\<close>) and when it builds the 429 response
  (\<open>now2\<close>); the two readings are separate inputs.
\<close>

definition middleware :: "config \<Rightarrow> int \<Rightarrow> int \<Rightarrow> store \<Rightarrow> request \<Rightarrow> response \<times> store" where
  "middleware cfg now now2 s request =
     (if startsWith (pathname request) ''/api/''
      then (let rateLimitKey = getRateLimitKey request;
                (limited, s') = isRateLimited cfg now s rateLimitKey
            in if limited then (tooManyRequests cfg now2, s')
               else (case s' rateLimitKey of
                       Some record \<Rightarrow> (rateLimitHeaders cfg record, s')
                     | None \<Rightarrow> (securityHeaders request, s')))
      else (securityHeaders request, s))"

text \<open>What a client sees of a response: the status (200 for \<^verbatim>\<open>NextResponse.next()\<close>) and the JSON body.\<close>

definition status_of :: "response \<Rightarrow> int" where
  "status_of resp = (case resp of Json b st hs \<Rightarrow> st | Next hs \<Rightarrow> 200)"

definition body_of :: "response \<Rightarrow> json_body option" where
  "body_of resp = (case resp of Json b st hs \<Rightarrow> Some b | Next hs \<Rightarrow> None)"

subsection \<open>Sequences of calls\<close>

text \<open>
  \<open>evaluations\<close> runs \<open>isRateLimited\<close> on a list of (clock reading, key) pairs, one
  call after the other on the same store, and collects the booleans. \<open>serve\<close> does the
  same for \<open>middleware\<close> and collects the responses.
\<close>

fun evaluations :: "config \<Rightarrow> store \<Rightarrow> (int \<times> string) list \<Rightarrow> bool list \<times> store" where
  "evaluations cfg s [] = ([], s)"
| "evaluations cfg s ((now, key) # evs) =
     (let (limited, s') = isRateLimited cfg now s key;
          (ls, s'') = evaluations cfg s' evs
      in (limited # ls, s''))"

fun serve :: "config \<Rightarrow> store \<Rightarrow> (int \<times> int \<times> request) list \<Rightarrow> response list \<times> store" where
  "serve cfg s [] = ([], s)"
| "serve cfg s ((now, now2, request) # evs) =
     (let (resp, s') = middleware cfg now now2 s request;
          (rs, s'') = serve cfg s' evs
      in (resp # rs, s''))"

section \<open>Properties\<close>

subsection \<open>One call of \<open>isRateLimited\<close>\<close>

lemma isRateLimited_absent:
  "s key = None \<Longrightarrow>
   isRateLimited cfg now s key = (False, s(key \<mapsto> \<lparr>count = 1, resetTime = now + windowMs cfg\<rparr>))"
  by (simp add: isRateLimited_def)

lemma isRateLimited_expired:
  "s key = Some r \<Longrightarrow> resetTime r < now \<Longrightarrow>
   isRateLimited cfg now s key = (False, s(key \<mapsto> \<lparr>count = 1, resetTime = now + windowMs cfg\<rparr>))"
  by (simp add: isRateLimited_def)

lemma isRateLimited_exhausted:
  "s key = Some r \<Longrightarrow> now \<le> resetTime r \<Longrightarrow> maxRequests cfg \<le> count r \<Longrightarrow>
   isRateLimited cfg now s key = (True, s)"
  by (simp add: isRateLimited_def)

lemma isRateLimited_counted:
  "s key = Some r \<Longrightarrow> now \<le> resetTime r \<Longrightarrow> count r < maxRequests cfg \<Longrightarrow>
   isRateLimited cfg now s key = (False, s(key \<mapsto> r\<lparr>count := count r + 1\<rparr>))"
  by (simp add: isRateLimited_def)

lemma isRateLimited_other_key:
  "k \<noteq> key \<Longrightarrow> snd (isRateLimited cfg now s key) k = s k"
  by (simp add: isRateLimited_def split: option.splits)

lemma isRateLimited_depends_on_own_record:
  "s key = s' key \<Longrightarrow>
   fst (isRateLimited cfg now s key) = fst (isRateLimited cfg now s' key) \<and>
   snd (isRateLimited cfg now s key) key = snd (isRateLimited cfg now s' key) key"
  by (simp add: isRateLimited_def split: option.splits)

subsection \<open>Rejection leaves the store alone\<close>

lemma evaluations_exhausted:
  "s key = Some r \<Longrightarrow> maxRequests cfg \<le> count r \<Longrightarrow> \<forall>t\<in>set ts. t \<le> resetTime r \<Longrightarrow>
   evaluations cfg s (map (\<lambda>t. (t, key)) ts) = (replicate (length ts) True, s)"
  by (induction ts) (simp_all add: isRateLimited_exhausted)

text \<open>
  Claim C2. A key whose live record has \<open>count \<ge> maxRequests\<close> is rejected by every
  call made before the window expires (\<open>now \<le> resetTime\<close>), and such a call returns the
  store it was given: no record of any key changes. Hence any number of calls before
  expiry are all rejected and leave the store as it was.
\<close>

theorem rejection_is_idempotent:
  assumes "s key = Some r" and "maxRequests cfg \<le> count r" and "\<forall>t\<in>set ts. t \<le> resetTime r"
  shows "(\<forall>t\<in>set ts. isRateLimited cfg t s key = (True, s)) \<and>
         evaluations cfg s (map (\<lambda>t. (t, key)) ts) = (replicate (length ts) True, s)"
  using assms by (simp add: isRateLimited_exhausted evaluations_exhausted)

theorem rejection_is_idempotent_witness:
  "isRateLimited RATE_LIMIT 500 [''k'' \<mapsto> \<lparr>count = 100, resetTime = 60000\<rparr>] ''k''
     = (True, [''k'' \<mapsto> \<lparr>count = 100, resetTime = 60000\<rparr>]) \<and>
   isRateLimited RATE_LIMIT 60000 [''k'' \<mapsto> \<lparr>count = 100, resetTime = 60000\<rparr>] ''k''
     = (True, [''k'' \<mapsto> \<lparr>count = 100, resetTime = 60000\<rparr>]) \<and>
   evaluations RATE_LIMIT [''k'' \<mapsto> \<lparr>count = 100, resetTime = 60000\<rparr>] [(500, ''k''), (60000, ''k'')]
     = ([True, True], [''k'' \<mapsto> \<lparr>count = 100, resetTime = 60000\<rparr>])"
  using rejection_is_idempotent [of "[''k'' \<mapsto> \<lparr>count = 100, resetTime = 60000\<rparr>]" "''k''"
      "\<lparr>count = 100, resetTime = 60000\<rparr>" RATE_LIMIT "[500, 60000]"]
  by (simp add: RATE_LIMIT_def)

subsection \<open>Keys do not interfere\<close>

lemma evaluations_other_keys:
  "\<forall>e\<in>set evs. snd e \<noteq> k \<Longrightarrow> snd (evaluations cfg s evs) k = s k"
proof (induction evs arbitrary: s)
  case Nil
  then show ?case by simp
next
  case (Cons e evs)
  obtain now key where e: "e = (now, key)" by (cases e)
  from Cons.prems e have "key \<noteq> k" and rest: "\<forall>e\<in>set evs. snd e \<noteq> k" by auto
  have "snd (evaluations cfg s (e # evs)) k = snd (evaluations cfg (snd (isRateLimited cfg now s key)) evs) k"
    by (simp add: e split: prod.splits)
  also have "\<dots> = snd (isRateLimited cfg now s key) k"
    using Cons.IH [OF rest] .
  also have "\<dots> = s k"
    using \<open>key \<noteq> k\<close> by (simp add: isRateLimited_other_key)
  finally show ?case .
qed

text \<open>
  Claim C4. For distinct keys \<open>A\<close> and \<open>B\<close>: a call for \<open>A\<close> leaves the record stored
  under \<open>B\<close> as it was; so does any sequence of calls for \<open>A\<close> (for instance one that
  uses up \<open>A\<close>'s quota); and after such a sequence a call for \<open>B\<close> at any instant \<open>u\<close>
  returns the same boolean, and stores the same record under \<open>B\<close>, as it would have
  without the calls for \<open>A\<close>.
\<close>

theorem key_independence:
  assumes "A \<noteq> B"
  shows "snd (isRateLimited cfg now s A) B = s B \<and>
         snd (evaluations cfg s (map (\<lambda>t. (t, A)) ts)) B = s B \<and>
         fst (isRateLimited cfg u (snd (evaluations cfg s (map (\<lambda>t. (t, A)) ts))) B)
           = fst (isRateLimited cfg u s B) \<and>
         snd (isRateLimited cfg u (snd (evaluations cfg s (map (\<lambda>t. (t, A)) ts))) B) B
           = snd (isRateLimited cfg u s B) B"
proof -
  have 1: "snd (isRateLimited cfg now s A) B = s B"
    using assms by (simp add: isRateLimited_other_key)
  have 2: "snd (evaluations cfg s (map (\<lambda>t. (t, A)) ts)) B = s B"
    using assms by (intro evaluations_other_keys) auto
  from isRateLimited_depends_on_own_record
         [of "snd (evaluations cfg s (map (\<lambda>t. (t, A)) ts))" B s cfg u, OF 2] 1 2
  show ?thesis by blast
qed

theorem key_independence_witness:
  "''a'' \<noteq> ''b'' \<and>
   fst (evaluations \<lparr>windowMs = 1000, maxRequests = 2, skipSuccessfulRequests = False\<rparr> Map.empty
          (map (\<lambda>t. (t, ''a'')) [0, 1, 2])) = [False, False, True] \<and>
   snd (evaluations \<lparr>windowMs = 1000, maxRequests = 2, skipSuccessfulRequests = False\<rparr> Map.empty
          (map (\<lambda>t. (t, ''a'')) [0, 1, 2])) ''b'' = None \<and>
   fst (isRateLimited \<lparr>windowMs = 1000, maxRequests = 2, skipSuccessfulRequests = False\<rparr> 2
          (snd (evaluations \<lparr>windowMs = 1000, maxRequests = 2, skipSuccessfulRequests = False\<rparr> Map.empty
                  (map (\<lambda>t. (t, ''a'')) [0, 1, 2]))) ''b'')
     = fst (isRateLimited \<lparr>windowMs = 1000, maxRequests = 2, skipSuccessfulRequests = False\<rparr> 2
              Map.empty ''b'') \<and>
   \<not> fst (isRateLimited \<lparr>windowMs = 1000, maxRequests = 2, skipSuccessfulRequests = False\<rparr> 2
              Map.empty ''b'')"
  using key_independence [of "''a''" "''b''"
      "\<lparr>windowMs = 1000, maxRequests = 2, skipSuccessfulRequests = False\<rparr>" 0 Map.empty "[0, 1, 2]" 2]
  by (simp add: isRateLimited_def)

subsection \<open>An admitted request finds its record\<close>

lemma isRateLimited_not_limited_record:
  "\<not> fst (isRateLimited cfg now s key) \<Longrightarrow> \<exists>r. snd (isRateLimited cfg now s key) key = Some r"
  by (simp add: isRateLimited_def split: option.splits if_splits)

lemma get_header_rateLimitHeaders:
  "get_header ''X-RateLimit-Limit'' (rateLimitHeaders cfg r) = Some (NumStr (maxRequests cfg))"
  "get_header ''X-RateLimit-Remaining'' (rateLimitHeaders cfg r) = Some (NumStr (maxRequests cfg - count r))"
  "get_header ''X-RateLimit-Reset'' (rateLimitHeaders cfg r) = Some (IsoStr (resetTime r))"
  by (simp_all add: get_header_def rateLimitHeaders_def set_header_def)

lemma middleware_admitted:
  assumes "startsWith (pathname request) ''/api/''"
      and "isRateLimited cfg now s (getRateLimitKey request) = (False, s')"
      and "s' (getRateLimitKey request) = Some r"
  shows "middleware cfg now now2 s request = (rateLimitHeaders cfg r, s')"
  using assms by (simp add: middleware_def)

lemma middleware_rejected:
  assumes "startsWith (pathname request) ''/api/''"
      and "isRateLimited cfg now s (getRateLimitKey request) = (True, s')"
  shows "middleware cfg now now2 s request = (tooManyRequests cfg now2, s')"
  using assms by (simp add: middleware_def)

text \<open>
  The store that a sequence of requests leaves is the store that the calls of
  \<open>isRateLimited\<close> for the API requests among them leave: the statements below about
  \<open>evaluations\<close> are statements about the store of the middleware.
\<close>

lemma middleware_store:
  "snd (middleware cfg now now2 s request) =
     (if startsWith (pathname request) ''/api/''
      then snd (isRateLimited cfg now s (getRateLimitKey request)) else s)"
  by (simp add: middleware_def Let_def split: prod.splits option.splits)

lemma serve_store:
  "snd (serve cfg s evs) =
     snd (evaluations cfg s
            (map (\<lambda>e. (fst e, getRateLimitKey (snd (snd e))))
                 (filter (\<lambda>e. startsWith (pathname (snd (snd e))) ''/api/'') evs)))"
proof (induction evs arbitrary: s)
  case Nil
  then show ?case by simp
next
  case (Cons e evs)
  obtain now now2 req where e: "e = (now, now2, req)" by (cases e)
  have "snd (serve cfg s (e # evs)) = snd (serve cfg (snd (middleware cfg now now2 s req)) evs)"
    by (simp add: e split: prod.splits)
  then show ?case
    by (simp add: Cons.IH middleware_store e split: prod.splits)
qed

text \<open>
  Claim C9. When \<open>isRateLimited\<close> returns false for a key, the store it leaves holds
  a record \<open>r\<close> under that key. So for an API request with that key the lookup of
  line 67 finds \<open>r\<close>, the middleware returns the response of lines 69 to 73, and that
  response carries \<^verbatim>\<open>X-RateLimit-Limit\<close>, \<^verbatim>\<open>X-RateLimit-Remaining\<close> and
  \<^verbatim>\<open>X-RateLimit-Reset\<close>, computed from \<open>r\<close>.
\<close>

theorem admitted_has_record:
  assumes "\<not> fst (isRateLimited cfg now s key)"
  shows "\<exists>r. snd (isRateLimited cfg now s key) key = Some r \<and>
           (\<forall>request now2.
              startsWith (pathname request) ''/api/'' \<and> getRateLimitKey request = key \<longrightarrow>
              middleware cfg now now2 s request
                = (rateLimitHeaders cfg r, snd (isRateLimited cfg now s key)) \<and>
              get_header ''X-RateLimit-Limit'' (fst (middleware cfg now now2 s request))
                = Some (NumStr (maxRequests cfg)) \<and>
              get_header ''X-RateLimit-Remaining'' (fst (middleware cfg now now2 s request))
                = Some (NumStr (maxRequests cfg - count r)) \<and>
              get_header ''X-RateLimit-Reset'' (fst (middleware cfg now now2 s request))
                = Some (IsoStr (resetTime r)))"
proof -
  from isRateLimited_not_limited_record [OF assms]
  obtain r where r: "snd (isRateLimited cfg now s key) key = Some r" ..
  have "middleware cfg now now2 s request = (rateLimitHeaders cfg r, snd (isRateLimited cfg now s key))"
    if "startsWith (pathname request) ''/api/''" and "getRateLimitKey request = key"
    for request now2
  proof (rule middleware_admitted)
    show "startsWith (pathname request) ''/api/''" by (rule that)
    show "isRateLimited cfg now s (getRateLimitKey request) = (False, snd (isRateLimited cfg now s key))"
      using assms that(2) by (simp add: prod_eq_iff)
    show "snd (isRateLimited cfg now s key) (getRateLimitKey request) = Some r"
      using r that(2) by simp
  qed
  with r show ?thesis
    by (simp add: get_header_rateLimitHeaders)
qed

theorem admitted_has_record_witness:
  "\<not> fst (isRateLimited RATE_LIMIT 0 Map.empty ''rate_limit:1.2.3.4'') \<and>
   snd (isRateLimited RATE_LIMIT 0 Map.empty ''rate_limit:1.2.3.4'') ''rate_limit:1.2.3.4''
     = Some \<lparr>count = 1, resetTime = 60000\<rparr> \<and>
   startsWith ''/api/jobs'' ''/api/'' \<and>
   getRateLimitKey \<lparr>pathname = ''/api/jobs'', x_forwarded_for = Some ''1.2.3.4, 5.6.7.8'', ip = None\<rparr>
     = ''rate_limit:1.2.3.4'' \<and>
   get_header ''X-RateLimit-Limit'' (fst (middleware RATE_LIMIT 0 0 Map.empty
       \<lparr>pathname = ''/api/jobs'', x_forwarded_for = Some ''1.2.3.4, 5.6.7.8'', ip = None\<rparr>))
     = Some (NumStr 100) \<and>
   get_header ''X-RateLimit-Remaining'' (fst (middleware RATE_LIMIT 0 0 Map.empty
       \<lparr>pathname = ''/api/jobs'', x_forwarded_for = Some ''1.2.3.4, 5.6.7.8'', ip = None\<rparr>))
     = Some (NumStr 99) \<and>
   get_header ''X-RateLimit-Reset'' (fst (middleware RATE_LIMIT 0 0 Map.empty
       \<lparr>pathname = ''/api/jobs'', x_forwarded_for = Some ''1.2.3.4, 5.6.7.8'', ip = None\<rparr>))
     = Some (IsoStr 60000)"
proof -
  have key: "getRateLimitKey \<lparr>pathname = ''/api/jobs'', x_forwarded_for = Some ''1.2.3.4, 5.6.7.8'', ip = None\<rparr>
     = ''rate_limit:1.2.3.4''"
    by (simp add: getRateLimitKey_def)
  have api: "startsWith ''/api/jobs'' ''/api/''"
    by (simp add: startsWith_def)
  have adm: "\<not> fst (isRateLimited RATE_LIMIT 0 Map.empty ''rate_limit:1.2.3.4'')"
    by (simp add: isRateLimited_def)
  have rec: "snd (isRateLimited RATE_LIMIT 0 Map.empty ''rate_limit:1.2.3.4'') ''rate_limit:1.2.3.4''
     = Some \<lparr>count = 1, resetTime = 60000\<rparr>"
    by (simp add: isRateLimited_def RATE_LIMIT_def)
  from admitted_has_record [OF adm] obtain r
    where r: "snd (isRateLimited RATE_LIMIT 0 Map.empty ''rate_limit:1.2.3.4'') ''rate_limit:1.2.3.4'' = Some r"
      and hs: "\<And>request now2. startsWith (pathname request) ''/api/'' \<and>
                 getRateLimitKey request = ''rate_limit:1.2.3.4'' \<Longrightarrow>
               get_header ''X-RateLimit-Limit'' (fst (middleware RATE_LIMIT 0 now2 Map.empty request))
                 = Some (NumStr (maxRequests RATE_LIMIT)) \<and>
               get_header ''X-RateLimit-Remaining'' (fst (middleware RATE_LIMIT 0 now2 Map.empty request))
                 = Some (NumStr (maxRequests RATE_LIMIT - count r)) \<and>
               get_header ''X-RateLimit-Reset'' (fst (middleware RATE_LIMIT 0 now2 Map.empty request))
                 = Some (IsoStr (resetTime r))"
    by blast
  from r rec have "r = \<lparr>count = 1, resetTime = 60000\<rparr>" by simp
  with hs [of "\<lparr>pathname = ''/api/jobs'', x_forwarded_for = Some ''1.2.3.4, 5.6.7.8'', ip = None\<rparr>" 0]
    key api adm rec
  show ?thesis by (simp add: RATE_LIMIT_def)
qed

subsection \<open>The counter stays within the quota\<close>

lemma isRateLimited_preserves_bounds:
  assumes "1 \<le> maxRequests cfg"
      and "\<forall>k r. s k = Some r \<longrightarrow> 1 \<le> count r \<and> count r \<le> maxRequests cfg"
      and "snd (isRateLimited cfg now s key) k = Some r"
  shows "1 \<le> count r \<and> count r \<le> maxRequests cfg"
proof (cases "k = key")
  case False
  with assms(3) have "s k = Some r" by (simp add: isRateLimited_other_key)
  with assms(2) show ?thesis by blast
next
  case True
  show ?thesis
  proof (cases "s key")
    case None
    with assms(1,3) True show ?thesis by (auto simp: isRateLimited_def)
  next
    case (Some r0)
    with assms(2) have "1 \<le> count r0" "count r0 \<le> maxRequests cfg" by blast+
    with assms(1,3) True Some show ?thesis
      by (auto simp: isRateLimited_def split: if_splits)
  qed
qed

lemma evaluations_preserve_bounds:
  assumes "1 \<le> maxRequests cfg"
  shows "\<forall>k r. s k = Some r \<longrightarrow> 1 \<le> count r \<and> count r \<le> maxRequests cfg \<Longrightarrow>
         snd (evaluations cfg s evs) k = Some r \<Longrightarrow> 1 \<le> count r \<and> count r \<le> maxRequests cfg"
proof (induction evs arbitrary: s)
  case Nil
  then show ?case by simp
next
  case (Cons e evs)
  obtain now key where e: "e = (now, key)" by (cases e)
  have inv: "\<forall>k r. snd (isRateLimited cfg now s key) k = Some r \<longrightarrow>
               1 \<le> count r \<and> count r \<le> maxRequests cfg"
    using isRateLimited_preserves_bounds [OF assms Cons.prems(1)] by blast
  have "snd (evaluations cfg (snd (isRateLimited cfg now s key)) evs) k = Some r"
    using Cons.prems(2) by (simp add: e split: prod.splits)
  from Cons.IH [OF inv this] show ?case .
qed

text \<open>
  Claim C10. The module starts with an empty map. For a quota of at least one request,
  whatever calls of \<open>isRateLimited\<close> are made, for whatever keys and at whatever
  clock readings, every record \<open>r\<close> in the store satisfies
  \<open>1 \<le> count r \<le> maxRequests\<close>: a record is created with \<open>count = 1\<close> and is
  incremented only while \<open>count < maxRequests\<close>.
\<close>

theorem count_within_limit:
  assumes "1 \<le> maxRequests cfg"
      and "snd (evaluations cfg Map.empty evs) k = Some r"
  shows "1 \<le> count r \<and> count r \<le> maxRequests cfg"
  using evaluations_preserve_bounds [OF assms(1) _ assms(2)] by simp

theorem count_within_limit_witness:
  "1 \<le> maxRequests \<lparr>windowMs = 1000, maxRequests = 2, skipSuccessfulRequests = False\<rparr> \<and>
   snd (evaluations \<lparr>windowMs = 1000, maxRequests = 2, skipSuccessfulRequests = False\<rparr> Map.empty
          [(0, ''k''), (1, ''k''), (2, ''k''), (3, ''k'')]) ''k''
     = Some \<lparr>count = 2, resetTime = 1000\<rparr> \<and>
   1 \<le> count \<lparr>count = 2, resetTime = 1000\<rparr> \<and>
   count \<lparr>count = 2, resetTime = 1000\<rparr>
     \<le> maxRequests \<lparr>windowMs = 1000, maxRequests = 2, skipSuccessfulRequests = False\<rparr>"
proof -
  have run: "snd (evaluations \<lparr>windowMs = 1000, maxRequests = 2, skipSuccessfulRequests = False\<rparr> Map.empty
          [(0, ''k''), (1, ''k''), (2, ''k''), (3, ''k'')]) ''k''
     = Some \<lparr>count = 2, resetTime = 1000\<rparr>"
    by (simp add: isRateLimited_def)
  have m: "1 \<le> maxRequests \<lparr>windowMs = 1000, maxRequests = 2, skipSuccessfulRequests = False\<rparr>"
    by simp
  from count_within_limit [OF m run] m run show ?thesis by simp
qed

subsection \<open>Records within a window and at its start\<close>

lemma isRateLimited_live_step:
  assumes "s key = Some r" and "now \<le> resetTime r"
  shows "\<exists>r'. snd (isRateLimited cfg now s key) key = Some r' \<and> resetTime r' = resetTime r \<and>
              (count r' = count r \<or> count r' = count r + 1)"
  using assms by (simp add: isRateLimited_def)

lemma evaluations_within_window:
  "s key = Some r \<Longrightarrow> \<forall>e\<in>set evs. snd e = key \<longrightarrow> fst e \<le> resetTime r \<Longrightarrow>
   \<exists>r'. snd (evaluations cfg s evs) key = Some r' \<and> resetTime r' = resetTime r \<and> count r \<le> count r'"
proof (induction evs arbitrary: s r)
  case Nil
  then show ?case by simp
next
  case (Cons e evs)
  obtain now k where e: "e = (now, k)" by (cases e)
  have run: "snd (evaluations cfg s (e # evs)) key = snd (evaluations cfg (snd (isRateLimited cfg now s k)) evs) key"
    by (simp add: e split: prod.splits)
  show ?case
  proof (cases "k = key")
    case True
    with Cons.prems e have "now \<le> resetTime r" by simp
    from isRateLimited_live_step [of s key r now cfg, OF Cons.prems(1) this]
    obtain r1 where r1: "snd (isRateLimited cfg now s key) key = Some r1"
      "resetTime r1 = resetTime r" "count r \<le> count r1" by auto
    from Cons.prems(2) r1(2) have "\<forall>e\<in>set evs. snd e = key \<longrightarrow> fst e \<le> resetTime r1" by simp
    from Cons.IH [of "snd (isRateLimited cfg now s key)" r1, OF r1(1) this] r1(2,3) run True
    show ?thesis by auto
  next
    case False
    then have "snd (isRateLimited cfg now s k) key = Some r"
      using Cons.prems(1) by (simp add: isRateLimited_other_key)
    moreover from Cons.prems(2) have "\<forall>e\<in>set evs. snd e = key \<longrightarrow> fst e \<le> resetTime r" by simp
    ultimately show ?thesis using Cons.IH run by simp
  qed
qed

text \<open>
  Claim C8. Let \<open>r\<close> be the record of \<open>key\<close>.
  \<^item> Within its window: over any sequence of calls in which every call for \<open>key\<close> is
    made at a reading \<open>\<le> resetTime r\<close>, the key still has a record, with the same
    \<open>resetTime\<close> and a \<open>count\<close> that is not smaller.
  \<^item> One call within the window keeps \<open>resetTime\<close> and leaves \<open>count\<close> as it is or
    adds one.
  \<^item> One call at reading \<open>now\<close> for a key with no record, or with a record that has
    expired (\<open>resetTime r < now\<close>), stores the fresh record with \<open>count = 1\<close> and
    \<open>resetTime = now + windowMs\<close>; by the second item no other call sets \<open>resetTime\<close>
    or lowers \<open>count\<close>.
  \<^item> The call writes under \<open>key\<close> only: the store is a map, the record of the key is
    replaced in place.
\<close>

theorem record_invariants:
  "(\<forall>r. s key = Some r \<and> (\<forall>e\<in>set evs. snd e = key \<longrightarrow> fst e \<le> resetTime r) \<longrightarrow>
      (\<exists>r'. snd (evaluations cfg s evs) key = Some r' \<and> resetTime r' = resetTime r \<and>
            count r \<le> count r')) \<and>
   (\<forall>r. s key = Some r \<and> now \<le> resetTime r \<longrightarrow>
      (\<exists>r'. snd (isRateLimited cfg now s key) key = Some r' \<and> resetTime r' = resetTime r \<and>
            (count r' = count r \<or> count r' = count r + 1))) \<and>
   (s key = None \<or> (\<exists>r. s key = Some r \<and> resetTime r < now) \<longrightarrow>
      snd (isRateLimited cfg now s key) key = Some \<lparr>count = 1, resetTime = now + windowMs cfg\<rparr>) \<and>
   (\<forall>k. k \<noteq> key \<longrightarrow> snd (isRateLimited cfg now s key) k = s k)"
proof (intro conjI allI impI)
  fix r assume "s key = Some r \<and> (\<forall>e\<in>set evs. snd e = key \<longrightarrow> fst e \<le> resetTime r)"
  then show "\<exists>r'. snd (evaluations cfg s evs) key = Some r' \<and> resetTime r' = resetTime r \<and> count r \<le> count r'"
    using evaluations_within_window by blast
next
  fix r assume "s key = Some r \<and> now \<le> resetTime r"
  then show "\<exists>r'. snd (isRateLimited cfg now s key) key = Some r' \<and> resetTime r' = resetTime r \<and>
            (count r' = count r \<or> count r' = count r + 1)"
    using isRateLimited_live_step by blast
next
  assume "s key = None \<or> (\<exists>r. s key = Some r \<and> resetTime r < now)"
  then show "snd (isRateLimited cfg now s key) key = Some \<lparr>count = 1, resetTime = now + windowMs cfg\<rparr>"
    by (auto simp: isRateLimited_absent isRateLimited_expired)
next
  fix k assume "k \<noteq> key"
  then show "snd (isRateLimited cfg now s key) k = s k"
    by (rule isRateLimited_other_key)
qed

theorem record_invariants_witness:
  "[''k'' \<mapsto> \<lparr>count = 1, resetTime = 60000\<rparr>] ''k'' = Some \<lparr>count = 1, resetTime = 60000\<rparr> \<and>
   snd (evaluations RATE_LIMIT [''k'' \<mapsto> \<lparr>count = 1, resetTime = 60000\<rparr>]
          [(5, ''k''), (70000, ''j''), (60000, ''k'')]) ''k''
     = Some \<lparr>count = 3, resetTime = 60000\<rparr> \<and>
   snd (isRateLimited RATE_LIMIT 60000 [''k'' \<mapsto> \<lparr>count = 1, resetTime = 60000\<rparr>] ''k'') ''k''
     = Some \<lparr>count = 2, resetTime = 60000\<rparr> \<and>
   snd (isRateLimited RATE_LIMIT 60001 [''k'' \<mapsto> \<lparr>count = 1, resetTime = 60000\<rparr>] ''k'') ''k''
     = Some \<lparr>count = 1, resetTime = 120001\<rparr> \<and>
   snd (isRateLimited RATE_LIMIT 60001 [''k'' \<mapsto> \<lparr>count = 1, resetTime = 60000\<rparr>] ''k'') ''j''
     = None"
  using record_invariants [of "[''k'' \<mapsto> \<lparr>count = 1, resetTime = 60000\<rparr>]" "''k''"
            "[(5, ''k''), (70000, ''j''), (60000, ''k'')]" RATE_LIMIT 60000]
        record_invariants [of "[''k'' \<mapsto> \<lparr>count = 1, resetTime = 60000\<rparr>]" "''k''"
            "[(5, ''k''), (70000, ''j''), (60000, ''k'')]" RATE_LIMIT 60001]
  by (simp add: isRateLimited_def RATE_LIMIT_def)

subsection \<open>Window rollover\<close>

lemma status_of_rateLimitHeaders: "status_of (rateLimitHeaders cfg r) = 200"
  by (simp add: status_of_def rateLimitHeaders_def)

lemma isRateLimited_absent_iff_expired:
  assumes "s key = Some r" and "1 \<le> count r"
  shows "isRateLimited cfg now s key = isRateLimited cfg now (s(key := None)) key
           \<longleftrightarrow> resetTime r < now"
proof
  assume eq: "isRateLimited cfg now s key = isRateLimited cfg now (s(key := None)) key"
  have absent: "isRateLimited cfg now (s(key := None)) key
      = (False, s(key \<mapsto> \<lparr>count = 1, resetTime = now + windowMs cfg\<rparr>))"
    by (simp add: isRateLimited_def)
  show "resetTime r < now"
  proof (rule ccontr)
    assume "\<not> resetTime r < now"
    then have live: "now \<le> resetTime r" by simp
    show False
    proof (cases "maxRequests cfg \<le> count r")
      case True
      from isRateLimited_exhausted [of s key r now cfg, OF assms(1) live True] eq absent
      show False by simp
    next
      case False
      then have "count r < maxRequests cfg" by simp
      from isRateLimited_counted [of s key r now cfg, OF assms(1) live this] eq absent
      have "s(key \<mapsto> r\<lparr>count := count r + 1\<rparr>)
          = s(key \<mapsto> \<lparr>count = 1, resetTime = now + windowMs cfg\<rparr>)" by simp
      then have "(s(key \<mapsto> r\<lparr>count := count r + 1\<rparr>)) key
          = (s(key \<mapsto> \<lparr>count = 1, resetTime = now + windowMs cfg\<rparr>)) key" by (rule arg_cong)
      then have "count (r\<lparr>count := count r + 1\<rparr>) = count \<lparr>count = 1, resetTime = now + windowMs cfg\<rparr>"
        by simp
      with assms(2) show False by simp
    qed
  qed
next
  assume "resetTime r < now"
  from isRateLimited_expired [of s key r now cfg, OF assms(1) this]
  show "isRateLimited cfg now s key = isRateLimited cfg now (s(key := None)) key"
    by (simp add: isRateLimited_def)
qed

text \<open>
  Claim C3. Let the record \<open>r\<close> of a key have \<open>resetTime r = t0 + W\<close>, whatever its
  count (an exhausted key in particular), and let \<open>\<epsilon> > 0\<close>. A call at \<open>t0 + W + \<epsilon>\<close>
  \<^item> is admitted and replaces the record by \<open>{count = 1, resetTime = (t0 + W + \<epsilon>) + W}\<close>;
  \<^item> gives the result it gives on the store without the record (the record is treated
    as absent);
  \<^item> and the response of the middleware to an API request with that key passes the
    request on with \<^verbatim>\<open>X-RateLimit-Remaining\<close> \<open>= M - 1\<close> and \<^verbatim>\<open>X-RateLimit-Reset\<close> the new
    \<open>resetTime\<close>.
  The comparison is strict, and expiry is the only way a record is passed over:
  \<^item> at \<open>t0 + W\<close> itself an exhausted key is rejected;
  \<^item> for a record with \<open>count \<ge> 1\<close>, as every stored record has, a call at any reading
    \<open>now\<close> gives the result (boolean and store) that it gives without the record if and
    only if \<open>now > resetTime r\<close>;
  \<^item> at every reading \<open>now \<le> resetTime r\<close> the call goes by the record: it rejects
    exactly when \<open>count r \<ge> M\<close>, and the record it leaves has the \<open>resetTime\<close> of \<open>r\<close>
    and the count of \<open>r\<close>, or one more.
\<close>

theorem window_rollover:
  assumes "s key = Some r" and "resetTime r = t0 + windowMs cfg" and "0 < \<epsilon>"
  shows "isRateLimited cfg (t0 + windowMs cfg + \<epsilon>) s key
           = (False, s(key \<mapsto> \<lparr>count = 1, resetTime = (t0 + windowMs cfg + \<epsilon>) + windowMs cfg\<rparr>)) \<and>
         isRateLimited cfg (t0 + windowMs cfg + \<epsilon>) s key
           = isRateLimited cfg (t0 + windowMs cfg + \<epsilon>) (s(key := None)) key \<and>
         (maxRequests cfg \<le> count r \<longrightarrow> isRateLimited cfg (t0 + windowMs cfg) s key = (True, s)) \<and>
         (\<forall>request now2.
            startsWith (pathname request) ''/api/'' \<and> getRateLimitKey request = key \<longrightarrow>
            status_of (fst (middleware cfg (t0 + windowMs cfg + \<epsilon>) now2 s request)) = 200 \<and>
            get_header ''X-RateLimit-Remaining'' (fst (middleware cfg (t0 + windowMs cfg + \<epsilon>) now2 s request))
              = Some (NumStr (maxRequests cfg - 1)) \<and>
            get_header ''X-RateLimit-Reset'' (fst (middleware cfg (t0 + windowMs cfg + \<epsilon>) now2 s request))
              = Some (IsoStr ((t0 + windowMs cfg + \<epsilon>) + windowMs cfg))) \<and>
         (1 \<le> count r \<longrightarrow>
            (\<forall>now. (isRateLimited cfg now s key = isRateLimited cfg now (s(key := None)) key)
                     = (resetTime r < now))) \<and>
         (\<forall>now. now \<le> resetTime r \<longrightarrow>
            fst (isRateLimited cfg now s key) = (maxRequests cfg \<le> count r) \<and>
            (\<exists>r'. snd (isRateLimited cfg now s key) key = Some r' \<and> resetTime r' = resetTime r \<and>
                  (count r' = count r \<or> count r' = count r + 1)))"
proof -
  let ?now = "t0 + windowMs cfg + \<epsilon>"
  let ?fresh = "\<lparr>count = 1, resetTime = ?now + windowMs cfg\<rparr>"
  from assms have expired: "resetTime r < ?now" by simp
  have 1: "isRateLimited cfg ?now s key = (False, s(key \<mapsto> ?fresh))"
    using assms(1) expired by (rule isRateLimited_expired)
  have 2: "isRateLimited cfg ?now (s(key := None)) key = (False, s(key \<mapsto> ?fresh))"
    by (simp add: isRateLimited_def)
  have 3: "isRateLimited cfg (t0 + windowMs cfg) s key = (True, s)" if "maxRequests cfg \<le> count r"
    using assms(1,2) that by (simp add: isRateLimited_exhausted)
  have 4: "middleware cfg ?now now2 s request = (rateLimitHeaders cfg ?fresh, s(key \<mapsto> ?fresh))"
    if "startsWith (pathname request) ''/api/''" and "getRateLimitKey request = key"
    for request now2
    using that 1 by (intro middleware_admitted) simp_all
  have 5: "status_of (fst (middleware cfg ?now now2 s request)) = 200 \<and>
           get_header ''X-RateLimit-Remaining'' (fst (middleware cfg ?now now2 s request))
             = Some (NumStr (maxRequests cfg - 1)) \<and>
           get_header ''X-RateLimit-Reset'' (fst (middleware cfg ?now now2 s request))
             = Some (IsoStr (?now + windowMs cfg))"
    if "startsWith (pathname request) ''/api/'' \<and> getRateLimitKey request = key"
    for request now2
    using 4 [of request now2] that
    by (simp add: get_header_rateLimitHeaders status_of_rateLimitHeaders)
  have 6: "(isRateLimited cfg now s key = isRateLimited cfg now (s(key := None)) key)
             = (resetTime r < now)" if "1 \<le> count r" for now
    using assms(1) that by (rule isRateLimited_absent_iff_expired)
  have 7: "fst (isRateLimited cfg now s key) = (maxRequests cfg \<le> count r) \<and>
           (\<exists>r'. snd (isRateLimited cfg now s key) key = Some r' \<and> resetTime r' = resetTime r \<and>
                 (count r' = count r \<or> count r' = count r + 1))"
    if "now \<le> resetTime r" for now
    using assms(1) that by (simp add: isRateLimited_def)
  from 1 2 have 8: "isRateLimited cfg ?now s key = isRateLimited cfg ?now (s(key := None)) key"
    by simp
  show ?thesis
  proof (intro conjI allI impI)
    show "isRateLimited cfg ?now s key = (False, s(key \<mapsto> ?fresh))" by (rule 1)
    show "isRateLimited cfg ?now s key = isRateLimited cfg ?now (s(key := None)) key" by (rule 8)
    show "isRateLimited cfg (t0 + windowMs cfg) s key = (True, s)" if "maxRequests cfg \<le> count r"
      using that by (rule 3)
    show "status_of (fst (middleware cfg ?now now2 s request)) = 200"
      if "startsWith (pathname request) ''/api/'' \<and> getRateLimitKey request = key" for request now2
      using 5 [OF that] by simp
    show "get_header ''X-RateLimit-Remaining'' (fst (middleware cfg ?now now2 s request))
             = Some (NumStr (maxRequests cfg - 1))"
      if "startsWith (pathname request) ''/api/'' \<and> getRateLimitKey request = key" for request now2
      using 5 [OF that] by simp
    show "get_header ''X-RateLimit-Reset'' (fst (middleware cfg ?now now2 s request))
             = Some (IsoStr (?now + windowMs cfg))"
      if "startsWith (pathname request) ''/api/'' \<and> getRateLimitKey request = key" for request now2
      using 5 [OF that] by simp
    show "(isRateLimited cfg now s key = isRateLimited cfg now (s(key := None)) key)
             = (resetTime r < now)" if "1 \<le> count r" for now
      using that by (rule 6)
    show "fst (isRateLimited cfg now s key) = (maxRequests cfg \<le> count r)"
      if "now \<le> resetTime r" for now
      using 7 [OF that] by simp
    show "\<exists>r'. snd (isRateLimited cfg now s key) key = Some r' \<and> resetTime r' = resetTime r \<and>
                 (count r' = count r \<or> count r' = count r + 1)"
      if "now \<le> resetTime r" for now
      using 7 [OF that] by simp
  qed
qed

theorem window_rollover_witness:
  "isRateLimited RATE_LIMIT 60001 [''rate_limit:unknown'' \<mapsto> \<lparr>count = 100, resetTime = 60000\<rparr>] ''rate_limit:unknown''
     = (False, [''rate_limit:unknown'' \<mapsto> \<lparr>count = 1, resetTime = 120001\<rparr>]) \<and>
   isRateLimited RATE_LIMIT 60000 [''rate_limit:unknown'' \<mapsto> \<lparr>count = 100, resetTime = 60000\<rparr>] ''rate_limit:unknown''
     = (True, [''rate_limit:unknown'' \<mapsto> \<lparr>count = 100, resetTime = 60000\<rparr>]) \<and>
   status_of (fst (middleware RATE_LIMIT 60001 60001 [''rate_limit:unknown'' \<mapsto> \<lparr>count = 100, resetTime = 60000\<rparr>]
       \<lparr>pathname = ''/api/jobs'', x_forwarded_for = None, ip = None\<rparr>)) = 200 \<and>
   get_header ''X-RateLimit-Remaining''
     (fst (middleware RATE_LIMIT 60001 60001 [''rate_limit:unknown'' \<mapsto> \<lparr>count = 100, resetTime = 60000\<rparr>]
       \<lparr>pathname = ''/api/jobs'', x_forwarded_for = None, ip = None\<rparr>)) = Some (NumStr 99) \<and>
   get_header ''X-RateLimit-Reset''
     (fst (middleware RATE_LIMIT 60001 60001 [''rate_limit:unknown'' \<mapsto> \<lparr>count = 100, resetTime = 60000\<rparr>]
       \<lparr>pathname = ''/api/jobs'', x_forwarded_for = None, ip = None\<rparr>)) = Some (IsoStr 120001) \<and>
   isRateLimited RATE_LIMIT 60001 [''rate_limit:unknown'' \<mapsto> \<lparr>count = 100, resetTime = 60000\<rparr>] ''rate_limit:unknown''
     = isRateLimited RATE_LIMIT 60001
         ([''rate_limit:unknown'' \<mapsto> \<lparr>count = 100, resetTime = 60000\<rparr>](''rate_limit:unknown'' := None))
         ''rate_limit:unknown'' \<and>
   isRateLimited RATE_LIMIT 60000 [''rate_limit:unknown'' \<mapsto> \<lparr>count = 100, resetTime = 60000\<rparr>] ''rate_limit:unknown''
     \<noteq> isRateLimited RATE_LIMIT 60000
         ([''rate_limit:unknown'' \<mapsto> \<lparr>count = 100, resetTime = 60000\<rparr>](''rate_limit:unknown'' := None))
         ''rate_limit:unknown'' \<and>
   isRateLimited RATE_LIMIT 60000 [''rate_limit:unknown'' \<mapsto> \<lparr>count = 1, resetTime = 60000\<rparr>] ''rate_limit:unknown''
     \<noteq> isRateLimited RATE_LIMIT 60000
         ([''rate_limit:unknown'' \<mapsto> \<lparr>count = 1, resetTime = 60000\<rparr>](''rate_limit:unknown'' := None))
         ''rate_limit:unknown'' \<and>
   \<not> fst (isRateLimited RATE_LIMIT 60000 [''rate_limit:unknown'' \<mapsto> \<lparr>count = 1, resetTime = 60000\<rparr>]
            ''rate_limit:unknown'') \<and>
   snd (isRateLimited RATE_LIMIT 60000 [''rate_limit:unknown'' \<mapsto> \<lparr>count = 1, resetTime = 60000\<rparr>]
          ''rate_limit:unknown'') ''rate_limit:unknown''
     = Some \<lparr>count = 2, resetTime = 60000\<rparr>"
proof -
  let ?k = "''rate_limit:unknown''"
  let ?s = "[?k \<mapsto> \<lparr>count = 100, resetTime = 60000\<rparr>]"
  let ?s1 = "[?k \<mapsto> \<lparr>count = 1, resetTime = 60000\<rparr>]"
  let ?req = "\<lparr>pathname = ''/api/jobs'', x_forwarded_for = None, ip = None\<rparr>"
  have key: "getRateLimitKey ?req = ?k"
    by (simp add: getRateLimitKey_def)
  have api: "startsWith (pathname ?req) ''/api/''"
    by (simp add: startsWith_def)
  have h1: "?s ?k = Some \<lparr>count = 100, resetTime = 60000\<rparr>" by simp
  have h2: "resetTime \<lparr>count = 100, resetTime = 60000\<rparr> = 0 + windowMs RATE_LIMIT"
    by (simp add: RATE_LIMIT_def)
  have h3: "(0::int) < 1" by simp
  have g1: "?s1 ?k = Some \<lparr>count = 1, resetTime = 60000\<rparr>" by simp
  have g2: "resetTime \<lparr>count = 1, resetTime = 60000\<rparr> = 0 + windowMs RATE_LIMIT"
    by (simp add: RATE_LIMIT_def)
  note a = window_rollover [of ?s ?k "\<lparr>count = 100, resetTime = 60000\<rparr>" 0 RATE_LIMIT 1, OF h1 h2 h3]
  note b = window_rollover [of ?s1 ?k "\<lparr>count = 1, resetTime = 60000\<rparr>" 0 RATE_LIMIT 1, OF g1 g2 h3]
  have first: "isRateLimited RATE_LIMIT 60001 ?s ?k = (False, [?k \<mapsto> \<lparr>count = 1, resetTime = 120001\<rparr>]) \<and>
      isRateLimited RATE_LIMIT 60000 ?s ?k = (True, ?s) \<and>
      status_of (fst (middleware RATE_LIMIT 60001 60001 ?s ?req)) = 200 \<and>
      get_header ''X-RateLimit-Remaining'' (fst (middleware RATE_LIMIT 60001 60001 ?s ?req)) = Some (NumStr 99) \<and>
      get_header ''X-RateLimit-Reset'' (fst (middleware RATE_LIMIT 60001 60001 ?s ?req)) = Some (IsoStr 120001)"
    using a key api by (simp add: RATE_LIMIT_def)
  from a have iff100: "\<And>now. (isRateLimited RATE_LIMIT now ?s ?k = isRateLimited RATE_LIMIT now (?s(?k := None)) ?k)
      = (60000 < now)" by simp
  from b have iff1: "\<And>now. (isRateLimited RATE_LIMIT now ?s1 ?k = isRateLimited RATE_LIMIT now (?s1(?k := None)) ?k)
      = (60000 < now)" by simp
  from b have live: "\<And>now. now \<le> 60000 \<Longrightarrow>
      fst (isRateLimited RATE_LIMIT now ?s1 ?k) = (maxRequests RATE_LIMIT \<le> 1)" by simp
  have e1: "isRateLimited RATE_LIMIT 60001 ?s ?k = isRateLimited RATE_LIMIT 60001 (?s(?k := None)) ?k"
    using iff100 [of 60001] by simp
  have e2: "isRateLimited RATE_LIMIT 60000 ?s ?k \<noteq> isRateLimited RATE_LIMIT 60000 (?s(?k := None)) ?k"
    using iff100 [of 60000] by simp
  have e3: "isRateLimited RATE_LIMIT 60000 ?s1 ?k \<noteq> isRateLimited RATE_LIMIT 60000 (?s1(?k := None)) ?k"
    using iff1 [of 60000] by simp
  have e4: "\<not> fst (isRateLimited RATE_LIMIT 60000 ?s1 ?k)"
    using live [of 60000] by (simp add: RATE_LIMIT_def)
  have e5: "snd (isRateLimited RATE_LIMIT 60000 ?s1 ?k) ?k = Some \<lparr>count = 2, resetTime = 60000\<rparr>"
    by (simp add: isRateLimited_def RATE_LIMIT_def)
  from first e1 e2 e3 e4 e5 show ?thesis by blast
qed

subsection \<open>The response to a rejected request\<close>

text \<open>
  \<^verbatim>\<open>Math.ceil(windowMs / 1000)\<close> is \<open>windowMs / 1000\<close> when the window is a whole number
  of seconds, as the 60000 ms of \<open>RATE_LIMIT\<close> is.
\<close>

lemma retryAfterSeconds_exact:
  assumes "1000 dvd windowMs cfg"
  shows "real_of_int (retryAfterSeconds cfg) = real_of_int (windowMs cfg) / 1000"
    and "retryAfterSeconds cfg = windowMs cfg div 1000"
proof -
  from assms obtain k where k: "windowMs cfg = 1000 * k" ..
  then show "real_of_int (retryAfterSeconds cfg) = real_of_int (windowMs cfg) / 1000"
    by (simp add: retryAfterSeconds_def)
  from k show "retryAfterSeconds cfg = windowMs cfg div 1000"
    by (simp add: retryAfterSeconds_def)
qed

text \<open>
  Claim C6. Let the window be a whole number of seconds. When an API request is rejected
  (\<open>isRateLimited\<close> returns true for its key), the response has status 429, a body
  whose \<open>retryAfter\<close> is \<open>windowMs / 1000\<close>, the header \<^verbatim>\<open>Retry-After\<close> with the same
  value, \<^verbatim>\<open>X-RateLimit-Limit\<close> \<open>= maxRequests\<close>, \<^verbatim>\<open>X-RateLimit-Remaining\<close> the literal
  \<^verbatim>\<open>"0"\<close>, and \<^verbatim>\<open>X-RateLimit-Reset\<close> the ISO rendering of \<open>now2 + windowMs\<close>, where
  \<open>now2\<close> is the clock reading taken when the response is built. None of these values
  is read from the stored record.
\<close>

theorem rejection_response:
  assumes "startsWith (pathname request) ''/api/''"
      and "fst (isRateLimited cfg now s (getRateLimitKey request))"
      and "1000 dvd windowMs cfg"
  shows "status_of (fst (middleware cfg now now2 s request)) = 429 \<and>
         (\<exists>b. body_of (fst (middleware cfg now now2 s request)) = Some b \<and>
              real_of_int (retryAfter b) = real_of_int (windowMs cfg) / 1000) \<and>
         get_header ''Retry-After'' (fst (middleware cfg now now2 s request))
           = Some (NumStr (windowMs cfg div 1000)) \<and>
         get_header ''X-RateLimit-Limit'' (fst (middleware cfg now now2 s request))
           = Some (NumStr (maxRequests cfg)) \<and>
         get_header ''X-RateLimit-Remaining'' (fst (middleware cfg now now2 s request))
           = Some (Str ''0'') \<and>
         get_header ''X-RateLimit-Reset'' (fst (middleware cfg now now2 s request))
           = Some (IsoStr (now2 + windowMs cfg))"
proof -
  from assms(2) have "isRateLimited cfg now s (getRateLimitKey request)
      = (True, snd (isRateLimited cfg now s (getRateLimitKey request)))"
    by (simp add: prod_eq_iff)
  from middleware_rejected [OF assms(1) this]
  have "fst (middleware cfg now now2 s request) = tooManyRequests cfg now2" by simp
  then show ?thesis
    using retryAfterSeconds_exact [OF assms(3)]
    by (simp add: tooManyRequests_def status_of_def body_of_def get_header_def)
qed

theorem rejection_response_witness:
  "startsWith ''/api/jobs'' ''/api/'' \<and>
   fst (isRateLimited RATE_LIMIT 500 [''rate_limit:unknown'' \<mapsto> \<lparr>count = 100, resetTime = 60000\<rparr>]
          (getRateLimitKey \<lparr>pathname = ''/api/jobs'', x_forwarded_for = None, ip = None\<rparr>)) \<and>
   status_of (fst (middleware RATE_LIMIT 500 501 [''rate_limit:unknown'' \<mapsto> \<lparr>count = 100, resetTime = 60000\<rparr>]
       \<lparr>pathname = ''/api/jobs'', x_forwarded_for = None, ip = None\<rparr>)) = 429 \<and>
   get_header ''Retry-After''
     (fst (middleware RATE_LIMIT 500 501 [''rate_limit:unknown'' \<mapsto> \<lparr>count = 100, resetTime = 60000\<rparr>]
       \<lparr>pathname = ''/api/jobs'', x_forwarded_for = None, ip = None\<rparr>)) = Some (NumStr 60) \<and>
   get_header ''X-RateLimit-Limit''
     (fst (middleware RATE_LIMIT 500 501 [''rate_limit:unknown'' \<mapsto> \<lparr>count = 100, resetTime = 60000\<rparr>]
       \<lparr>pathname = ''/api/jobs'', x_forwarded_for = None, ip = None\<rparr>)) = Some (NumStr 100) \<and>
   get_header ''X-RateLimit-Remaining''
     (fst (middleware RATE_LIMIT 500 501 [''rate_limit:unknown'' \<mapsto> \<lparr>count = 100, resetTime = 60000\<rparr>]
       \<lparr>pathname = ''/api/jobs'', x_forwarded_for = None, ip = None\<rparr>)) = Some (Str ''0'') \<and>
   get_header ''X-RateLimit-Reset''
     (fst (middleware RATE_LIMIT 500 501 [''rate_limit:unknown'' \<mapsto> \<lparr>count = 100, resetTime = 60000\<rparr>]
       \<lparr>pathname = ''/api/jobs'', x_forwarded_for = None, ip = None\<rparr>)) = Some (IsoStr 60501)"
proof -
  let ?s = "[''rate_limit:unknown'' \<mapsto> \<lparr>count = 100, resetTime = 60000\<rparr>]"
  let ?req = "\<lparr>pathname = ''/api/jobs'', x_forwarded_for = None, ip = None\<rparr>"
  have api: "startsWith (pathname ?req) ''/api/''"
    by (simp add: startsWith_def)
  have lim: "fst (isRateLimited RATE_LIMIT 500 ?s (getRateLimitKey ?req))"
    by (simp add: getRateLimitKey_def isRateLimited_def RATE_LIMIT_def)
  have w: "1000 dvd windowMs RATE_LIMIT"
    by (simp add: RATE_LIMIT_def)
  from rejection_response [of ?req RATE_LIMIT 500 ?s 501, OF api lim w] api lim
  show ?thesis
    by (simp add: RATE_LIMIT_def)
qed

subsection \<open>A full window of requests\<close>

lemma serve_append:
  "serve cfg s (xs @ ys) =
     (fst (serve cfg s xs) @ fst (serve cfg (snd (serve cfg s xs)) ys),
      snd (serve cfg (snd (serve cfg s xs)) ys))"
  by (induction xs arbitrary: s) (auto split: prod.splits)

lemma serve_counted:
  "s key = Some r \<Longrightarrow>
   \<forall>e\<in>set evs. startsWith (pathname (snd (snd e))) ''/api/'' \<and>
              getRateLimitKey (snd (snd e)) = key \<and> fst e \<le> resetTime r \<Longrightarrow>
   count r + int (length evs) \<le> maxRequests cfg \<Longrightarrow>
   serve cfg s evs =
     (map (\<lambda>i. rateLimitHeaders cfg (r\<lparr>count := count r + 1 + int i\<rparr>)) [0..<length evs],
      s(key \<mapsto> r\<lparr>count := count r + int (length evs)\<rparr>))"
proof (induction evs arbitrary: s r)
  case Nil
  then show ?case by (simp add: map_upd_triv)
next
  case (Cons e evs)
  obtain now now2 req where e: "e = (now, now2, req)" by (cases e)
  let ?r1 = "r\<lparr>count := count r + 1\<rparr>"
  let ?s1 = "s(key \<mapsto> ?r1)"
  from Cons.prems e have api: "startsWith (pathname req) ''/api/''"
    and key: "getRateLimitKey req = key" and live: "now \<le> resetTime r" by simp_all
  from Cons.prems(3) have lt: "count r < maxRequests cfg" by simp
  have step: "isRateLimited cfg now s key = (False, ?s1)"
    using Cons.prems(1) live lt by (rule isRateLimited_counted)
  have resp: "middleware cfg now now2 s req = (rateLimitHeaders cfg ?r1, ?s1)"
    using api step key by (intro middleware_admitted) simp_all
  have rest: "serve cfg ?s1 evs =
     (map (\<lambda>i. rateLimitHeaders cfg (?r1\<lparr>count := count ?r1 + 1 + int i\<rparr>)) [0..<length evs],
      ?s1(key \<mapsto> ?r1\<lparr>count := count ?r1 + int (length evs)\<rparr>))"
  proof (rule Cons.IH)
    show "?s1 key = Some ?r1" by simp
    show "\<forall>e\<in>set evs. startsWith (pathname (snd (snd e))) ''/api/'' \<and>
              getRateLimitKey (snd (snd e)) = key \<and> fst e \<le> resetTime ?r1"
      using Cons.prems(2) by simp
    show "count ?r1 + int (length evs) \<le> maxRequests cfg"
      using Cons.prems(3) by simp
  qed
  have idx: "map (\<lambda>i. rateLimitHeaders cfg (r\<lparr>count := count r + 1 + int i\<rparr>)) [0..<length (e # evs)]
      = rateLimitHeaders cfg ?r1
        # map (\<lambda>i. rateLimitHeaders cfg (?r1\<lparr>count := count ?r1 + 1 + int i\<rparr>)) [0..<length evs]"
    by (simp add: map_upt_Suc add.commute add.left_commute del: upt_Suc)
  have fin: "?r1\<lparr>count := count ?r1 + int (length evs)\<rparr> = r\<lparr>count := count r + int (length (e # evs))\<rparr>"
    by simp
  have "serve cfg s (e # evs) = (rateLimitHeaders cfg ?r1 # fst (serve cfg ?s1 evs), snd (serve cfg ?s1 evs))"
    using resp by (simp add: e split: prod.splits)
  also have "\<dots> = (map (\<lambda>i. rateLimitHeaders cfg (r\<lparr>count := count r + 1 + int i\<rparr>)) [0..<length (e # evs)],
      s(key \<mapsto> r\<lparr>count := count r + int (length (e # evs))\<rparr>))"
    unfolding idx rest fin by simp
  finally show ?case .
qed

lemma get_header_tooManyRequests:
  "get_header ''X-RateLimit-Remaining'' (tooManyRequests cfg now2) = Some (Str ''0'')"
  "get_header ''X-RateLimit-Reset'' (tooManyRequests cfg now2) = Some (IsoStr (now2 + windowMs cfg))"
  "status_of (tooManyRequests cfg now2) = 429"
  by (simp_all add: get_header_def tooManyRequests_def status_of_def)

lemma serve_window:
  assumes M: "1 \<le> maxRequests cfg"
    and fresh: "s key = None \<or> (\<exists>r. s key = Some r \<and> resetTime r < t0)"
    and q0: "startsWith (pathname q0) ''/api/''" "getRateLimitKey q0 = key"
    and evs: "\<forall>e\<in>set evs. startsWith (pathname (snd (snd e))) ''/api/'' \<and>
                getRateLimitKey (snd (snd e)) = key \<and> fst e \<le> t0 + windowMs cfg"
    and len: "length evs = nat (maxRequests cfg - 1)"
    and qL: "startsWith (pathname qL) ''/api/''" "getRateLimitKey qL = key"
    and tL: "tL \<le> t0 + windowMs cfg"
  shows "serve cfg s ((t0, n0, q0) # evs @ [(tL, nL, qL)]) =
     (map (\<lambda>i. rateLimitHeaders cfg \<lparr>count = 1 + int i, resetTime = t0 + windowMs cfg\<rparr>)
          [0..<nat (maxRequests cfg)] @ [tooManyRequests cfg nL],
      s(key \<mapsto> \<lparr>count = maxRequests cfg, resetTime = t0 + windowMs cfg\<rparr>))"
proof -
  let ?r1 = "\<lparr>count = 1, resetTime = t0 + windowMs cfg\<rparr>"
  let ?s1 = "s(key \<mapsto> ?r1)"
  let ?s2 = "s(key \<mapsto> \<lparr>count = maxRequests cfg, resetTime = t0 + windowMs cfg\<rparr>)"
  have first: "isRateLimited cfg t0 s key = (False, ?s1)"
    using fresh by (auto simp: isRateLimited_absent isRateLimited_expired)
  have resp0: "middleware cfg t0 n0 s q0 = (rateLimitHeaders cfg ?r1, ?s1)"
    using q0 first by (intro middleware_admitted) simp_all
  have mid: "serve cfg ?s1 evs =
     (map (\<lambda>i. rateLimitHeaders cfg (?r1\<lparr>count := count ?r1 + 1 + int i\<rparr>)) [0..<length evs],
      ?s1(key \<mapsto> ?r1\<lparr>count := count ?r1 + int (length evs)\<rparr>))"
  proof (rule serve_counted)
    show "?s1 key = Some ?r1" by simp
    show "\<forall>e\<in>set evs. startsWith (pathname (snd (snd e))) ''/api/'' \<and>
              getRateLimitKey (snd (snd e)) = key \<and> fst e \<le> resetTime ?r1"
      using evs by simp
    show "count ?r1 + int (length evs) \<le> maxRequests cfg"
      using M len by simp
  qed
  have s2: "?s1(key \<mapsto> ?r1\<lparr>count := count ?r1 + int (length evs)\<rparr>) = ?s2"
    using M len by simp
  have rej: "isRateLimited cfg tL ?s2 key = (True, ?s2)"
    using tL by (intro isRateLimited_exhausted [where r = "\<lparr>count = maxRequests cfg, resetTime = t0 + windowMs cfg\<rparr>"]) simp_all
  have respL: "middleware cfg tL nL ?s2 qL = (tooManyRequests cfg nL, ?s2)"
    using qL rej by (intro middleware_rejected) simp_all
  have n: "nat (maxRequests cfg) = Suc (length evs)"
    using M len by simp
  have idx: "map (\<lambda>i. rateLimitHeaders cfg \<lparr>count = 1 + int i, resetTime = t0 + windowMs cfg\<rparr>)
               [0..<nat (maxRequests cfg)]
      = rateLimitHeaders cfg ?r1
        # map (\<lambda>i. rateLimitHeaders cfg (?r1\<lparr>count := count ?r1 + 1 + int i\<rparr>)) [0..<length evs]"
    unfolding n by (simp add: map_upt_Suc add.commute add.left_commute del: upt_Suc)
  have tail: "serve cfg ?s1 (evs @ [(tL, nL, qL)])
      = (map (\<lambda>i. rateLimitHeaders cfg (?r1\<lparr>count := count ?r1 + 1 + int i\<rparr>)) [0..<length evs]
           @ [tooManyRequests cfg nL], ?s2)"
    unfolding serve_append mid s2 using respL
    by (simp only: fst_conv snd_conv serve.simps Let_def split_conv)
  have "serve cfg s ((t0, n0, q0) # evs @ [(tL, nL, qL)])
      = (rateLimitHeaders cfg ?r1 # fst (serve cfg ?s1 (evs @ [(tL, nL, qL)])),
         snd (serve cfg ?s1 (evs @ [(tL, nL, qL)])))"
    using resp0 by (simp split: prod.splits)
  then show ?thesis
    unfolding tail idx by (simp only: fst_conv snd_conv append_Cons)
qed

text \<open>
  Claim C1. Let the quota \<open>M\<close> be at least one, and let the key have no live record at
  \<open>t0\<close> (none, or one that expired before \<open>t0\<close>). Take \<open>M + 1\<close> API requests with that
  key: the first at \<open>t0\<close>, the others at readings in \<open>[t0, t0 + W)\<close>. Then the first \<open>M\<close>
  are passed on (status 200) with \<^verbatim>\<open>X-RateLimit-Remaining\<close> \<open>M - 1, M - 2, \<dots>, 0\<close> in that
  order, and the last is answered 429 with \<^verbatim>\<open>X-RateLimit-Remaining\<close> the literal \<^verbatim>\<open>"0"\<close>.
  The store ends with the record \<open>{count = M, resetTime = t0 + W}\<close> under the key.
\<close>

theorem quota_per_window:
  assumes "1 \<le> maxRequests cfg"
    and "s key = None \<or> (\<exists>r. s key = Some r \<and> resetTime r < t0)"
    and "startsWith (pathname q0) ''/api/'' \<and> getRateLimitKey q0 = key"
    and "\<forall>e\<in>set evs. startsWith (pathname (snd (snd e))) ''/api/'' \<and>
            getRateLimitKey (snd (snd e)) = key \<and> t0 \<le> fst e \<and> fst e < t0 + windowMs cfg"
    and "length evs = nat (maxRequests cfg - 1)"
    and "startsWith (pathname qL) ''/api/'' \<and> getRateLimitKey qL = key"
    and "t0 \<le> tL \<and> tL < t0 + windowMs cfg"
  shows "map status_of (fst (serve cfg s ((t0, n0, q0) # evs @ [(tL, nL, qL)])))
           = replicate (nat (maxRequests cfg)) 200 @ [429] \<and>
         map (get_header ''X-RateLimit-Remaining'') (fst (serve cfg s ((t0, n0, q0) # evs @ [(tL, nL, qL)])))
           = map (\<lambda>i. Some (NumStr (maxRequests cfg - 1 - int i))) [0..<nat (maxRequests cfg)]
             @ [Some (Str ''0'')] \<and>
         snd (serve cfg s ((t0, n0, q0) # evs @ [(tL, nL, qL)]))
           = s(key \<mapsto> \<lparr>count = maxRequests cfg, resetTime = t0 + windowMs cfg\<rparr>)"
proof -
  have evs: "\<forall>e\<in>set evs. startsWith (pathname (snd (snd e))) ''/api/'' \<and>
                getRateLimitKey (snd (snd e)) = key \<and> fst e \<le> t0 + windowMs cfg"
    using assms(4) by auto
  have run: "serve cfg s ((t0, n0, q0) # evs @ [(tL, nL, qL)]) =
     (map (\<lambda>i. rateLimitHeaders cfg \<lparr>count = 1 + int i, resetTime = t0 + windowMs cfg\<rparr>)
          [0..<nat (maxRequests cfg)] @ [tooManyRequests cfg nL],
      s(key \<mapsto> \<lparr>count = maxRequests cfg, resetTime = t0 + windowMs cfg\<rparr>))"
    using assms(1,2) _ _ evs assms(5) _ _ _
  proof (rule serve_window)
    show "startsWith (pathname q0) ''/api/''" "getRateLimitKey q0 = key" using assms(3) by simp_all
    show "startsWith (pathname qL) ''/api/''" "getRateLimitKey qL = key" using assms(6) by simp_all
    show "tL \<le> t0 + windowMs cfg" using assms(7) by simp
  qed
  have st: "map status_of (map (\<lambda>i. rateLimitHeaders cfg \<lparr>count = 1 + int i, resetTime = t0 + windowMs cfg\<rparr>)
          [0..<nat (maxRequests cfg)]) = replicate (nat (maxRequests cfg)) 200"
    by (simp add: status_of_rateLimitHeaders comp_def map_replicate_const)
  have rem: "map (get_header ''X-RateLimit-Remaining'')
        (map (\<lambda>i. rateLimitHeaders cfg \<lparr>count = 1 + int i, resetTime = t0 + windowMs cfg\<rparr>)
          [0..<nat (maxRequests cfg)])
      = map (\<lambda>i. Some (NumStr (maxRequests cfg - 1 - int i))) [0..<nat (maxRequests cfg)]"
    by (simp add: get_header_rateLimitHeaders comp_def algebra_simps)
  show ?thesis
    unfolding run fst_conv snd_conv map_append st rem
    by (simp add: get_header_tooManyRequests)
qed


theorem quota_per_window_witness:
  "map status_of (fst (serve \<lparr>windowMs = 1000, maxRequests = 3, skipSuccessfulRequests = False\<rparr> Map.empty
      [(0, 0, \<lparr>pathname = ''/api/jobs'', x_forwarded_for = Some ''1.2.3.4'', ip = None\<rparr>),
       (10, 10, \<lparr>pathname = ''/api/jobs'', x_forwarded_for = Some ''1.2.3.4'', ip = None\<rparr>),
       (999, 999, \<lparr>pathname = ''/api/skills'', x_forwarded_for = Some ''1.2.3.4'', ip = None\<rparr>),
       (999, 1000, \<lparr>pathname = ''/api/jobs'', x_forwarded_for = Some ''1.2.3.4'', ip = None\<rparr>)]))
     = [200, 200, 200, 429] \<and>
   map (get_header ''X-RateLimit-Remaining'')
     (fst (serve \<lparr>windowMs = 1000, maxRequests = 3, skipSuccessfulRequests = False\<rparr> Map.empty
      [(0, 0, \<lparr>pathname = ''/api/jobs'', x_forwarded_for = Some ''1.2.3.4'', ip = None\<rparr>),
       (10, 10, \<lparr>pathname = ''/api/jobs'', x_forwarded_for = Some ''1.2.3.4'', ip = None\<rparr>),
       (999, 999, \<lparr>pathname = ''/api/skills'', x_forwarded_for = Some ''1.2.3.4'', ip = None\<rparr>),
       (999, 1000, \<lparr>pathname = ''/api/jobs'', x_forwarded_for = Some ''1.2.3.4'', ip = None\<rparr>)]))
     = [Some (NumStr 2), Some (NumStr 1), Some (NumStr 0), Some (Str ''0'')] \<and>
   snd (serve \<lparr>windowMs = 1000, maxRequests = 3, skipSuccessfulRequests = False\<rparr> Map.empty
      [(0, 0, \<lparr>pathname = ''/api/jobs'', x_forwarded_for = Some ''1.2.3.4'', ip = None\<rparr>),
       (10, 10, \<lparr>pathname = ''/api/jobs'', x_forwarded_for = Some ''1.2.3.4'', ip = None\<rparr>),
       (999, 999, \<lparr>pathname = ''/api/skills'', x_forwarded_for = Some ''1.2.3.4'', ip = None\<rparr>),
       (999, 1000, \<lparr>pathname = ''/api/jobs'', x_forwarded_for = Some ''1.2.3.4'', ip = None\<rparr>)])
     = [''rate_limit:1.2.3.4'' \<mapsto> \<lparr>count = 3, resetTime = 1000\<rparr>]"
proof -
  let ?cfg = "\<lparr>windowMs = 1000, maxRequests = 3, skipSuccessfulRequests = False\<rparr>"
  let ?q = "\<lparr>pathname = ''/api/jobs'', x_forwarded_for = Some ''1.2.3.4'', ip = None\<rparr>"
  let ?q' = "\<lparr>pathname = ''/api/skills'', x_forwarded_for = Some ''1.2.3.4'', ip = None\<rparr>"
  have h1: "1 \<le> maxRequests ?cfg" by simp
  have h2: "Map.empty ''rate_limit:1.2.3.4'' = None \<or>
      (\<exists>r. (Map.empty :: store) ''rate_limit:1.2.3.4'' = Some r \<and> resetTime r < 0)" by simp
  have h3: "startsWith (pathname ?q) ''/api/'' \<and> getRateLimitKey ?q = ''rate_limit:1.2.3.4''"
    by (simp add: startsWith_def getRateLimitKey_def)
  have h4: "\<forall>e\<in>set [(10, 10, ?q), (999, 999, ?q')]. startsWith (pathname (snd (snd e))) ''/api/'' \<and>
      getRateLimitKey (snd (snd e)) = ''rate_limit:1.2.3.4'' \<and> 0 \<le> fst e \<and> fst e < 0 + windowMs ?cfg"
    by (simp add: startsWith_def getRateLimitKey_def)
  have h5: "length [(10::int, 10::int, ?q), (999, 999, ?q')] = nat (maxRequests ?cfg - 1)" by simp
  have h7: "(0::int) \<le> 999 \<and> 999 < 0 + windowMs ?cfg" by simp
  from quota_per_window [OF h1 h2 h3 h4 h5 h3 h7, of 0 1000]
  show ?thesis
    by (simp add: numeral_3_eq_3)
qed


subsection \<open>The reset time reported on a rejection\<close>

lemma admitted_remaining_in_range:
  assumes "1 \<le> maxRequests cfg"
      and "\<forall>k r. s k = Some r \<longrightarrow> 1 \<le> count r \<and> count r \<le> maxRequests cfg"
      and "\<not> fst (isRateLimited cfg now s key)"
  shows "\<exists>r. snd (isRateLimited cfg now s key) key = Some r \<and>
             0 \<le> maxRequests cfg - count r \<and> maxRequests cfg - count r \<le> maxRequests cfg - 1"
proof -
  from isRateLimited_not_limited_record [OF assms(3)]
  obtain r where r: "snd (isRateLimited cfg now s key) key = Some r" ..
  from isRateLimited_preserves_bounds [OF assms(1,2) r] r show ?thesis by simp
qed

text \<open>
  Claim C7, at the input where the code departs from it. With the configuration of the
  source, one client sends 100 API requests at clock reading 0 and one more at 500.
  The window these are counted in ends at 60000: that is the \<open>resetTime\<close> of the stored
  record, and the 100th (admitted) response reports it. The 101st request is rejected,
  and its response reports 60500 as the reset time.
\<close>

theorem rejection_reports_static_reset:
  "get_header ''X-RateLimit-Reset''
     (last (fst (serve RATE_LIMIT Map.empty
        ((0, 0, \<lparr>pathname = ''/api/jobs'', x_forwarded_for = Some ''1.2.3.4'', ip = None\<rparr>)
         # replicate 99 (0, 0, \<lparr>pathname = ''/api/jobs'', x_forwarded_for = Some ''1.2.3.4'', ip = None\<rparr>)
         @ [(500, 500, \<lparr>pathname = ''/api/jobs'', x_forwarded_for = Some ''1.2.3.4'', ip = None\<rparr>)]))))
     = Some (IsoStr 60500) \<and>
   get_header ''X-RateLimit-Reset''
     (fst (serve RATE_LIMIT Map.empty
        ((0, 0, \<lparr>pathname = ''/api/jobs'', x_forwarded_for = Some ''1.2.3.4'', ip = None\<rparr>)
         # replicate 99 (0, 0, \<lparr>pathname = ''/api/jobs'', x_forwarded_for = Some ''1.2.3.4'', ip = None\<rparr>)
         @ [(500, 500, \<lparr>pathname = ''/api/jobs'', x_forwarded_for = Some ''1.2.3.4'', ip = None\<rparr>)])) ! 99)
     = Some (IsoStr 60000) \<and>
   snd (serve RATE_LIMIT Map.empty
        ((0, 0, \<lparr>pathname = ''/api/jobs'', x_forwarded_for = Some ''1.2.3.4'', ip = None\<rparr>)
         # replicate 99 (0, 0, \<lparr>pathname = ''/api/jobs'', x_forwarded_for = Some ''1.2.3.4'', ip = None\<rparr>)
         @ [(500, 500, \<lparr>pathname = ''/api/jobs'', x_forwarded_for = Some ''1.2.3.4'', ip = None\<rparr>)]))
       ''rate_limit:1.2.3.4''
     = Some \<lparr>count = 100, resetTime = 60000\<rparr>"
proof -
  let ?q = "\<lparr>pathname = ''/api/jobs'', x_forwarded_for = Some ''1.2.3.4'', ip = None\<rparr>"
  have api: "startsWith (pathname ?q) ''/api/''" by (simp add: startsWith_def)
  have key: "getRateLimitKey ?q = ''rate_limit:1.2.3.4''" by (simp add: getRateLimitKey_def)
  have "serve RATE_LIMIT Map.empty ((0, 0, ?q) # replicate 99 (0, 0, ?q) @ [(500, 500, ?q)]) =
     (map (\<lambda>i. rateLimitHeaders RATE_LIMIT \<lparr>count = 1 + int i, resetTime = 0 + windowMs RATE_LIMIT\<rparr>)
          [0..<nat (maxRequests RATE_LIMIT)] @ [tooManyRequests RATE_LIMIT 500],
      [''rate_limit:1.2.3.4'' \<mapsto> \<lparr>count = maxRequests RATE_LIMIT, resetTime = 0 + windowMs RATE_LIMIT\<rparr>])"
  proof (rule serve_window)
    show "1 \<le> maxRequests RATE_LIMIT" by (simp add: RATE_LIMIT_def)
    show "Map.empty ''rate_limit:1.2.3.4'' = None \<or>
      (\<exists>r. (Map.empty :: store) ''rate_limit:1.2.3.4'' = Some r \<and> resetTime r < 0)" by simp
    show "startsWith (pathname ?q) ''/api/''" "startsWith (pathname ?q) ''/api/''" by (rule api)+
    show "getRateLimitKey ?q = ''rate_limit:1.2.3.4''" "getRateLimitKey ?q = ''rate_limit:1.2.3.4''"
      by (rule key)+
    show "\<forall>e\<in>set (replicate 99 (0, 0, ?q)). startsWith (pathname (snd (snd e))) ''/api/'' \<and>
        getRateLimitKey (snd (snd e)) = ''rate_limit:1.2.3.4'' \<and> fst e \<le> 0 + windowMs RATE_LIMIT"
      using api key by (simp add: RATE_LIMIT_def)
    show "length (replicate 99 (0::int, 0::int, ?q)) = nat (maxRequests RATE_LIMIT - 1)"
      by (simp add: RATE_LIMIT_def)
    show "500 \<le> 0 + windowMs RATE_LIMIT" by (simp add: RATE_LIMIT_def)
  qed
  then show ?thesis
    by (simp add: get_header_tooManyRequests get_header_rateLimitHeaders nth_append RATE_LIMIT_def)
qed

subsection \<open>Key derivation\<close>

lemma split_not_Nil: "split sep str \<noteq> []"
  by (induction str) (auto split: list.splits)

lemma first_entry_split: "first_entry (split sep str) = takeWhile (\<lambda>c. c \<noteq> sep) str"
proof (induction str)
  case Nil
  then show ?case by simp
next
  case (Cons c cs)
  then show ?case
    using split_not_Nil [of sep cs] by (cases "split sep cs") auto
qed

text \<open>
  Claim C5 says that a request whose forwarded-address header is present gets a key made
  from the first entry of that header. The source tests the header for truthiness, and
  the empty string is falsy: a request that carries the header with an empty value gets
  the key of its connection address, not the key of the (empty) first entry.
\<close>

theorem key_derivation_counterexample:
  "x_forwarded_for \<lparr>pathname = ''/api/jobs'', x_forwarded_for = Some '''', ip = Some ''10.0.0.1''\<rparr> = Some '''' \<and>
   getRateLimitKey \<lparr>pathname = ''/api/jobs'', x_forwarded_for = Some '''', ip = Some ''10.0.0.1''\<rparr>
     = ''rate_limit:10.0.0.1'' \<and>
   getRateLimitKey \<lparr>pathname = ''/api/jobs'', x_forwarded_for = Some '''', ip = Some ''10.0.0.1''\<rparr>
     \<noteq> ''rate_limit:'' @ first_entry (split CHR '','' '''')"
  by (simp add: getRateLimitKey_def)

text \<open>
  Claim C5, amended. \<open>getRateLimitKey\<close> is a total function of the request, and its
  result always starts with \<^verbatim>\<open>rate_limit:\<close>. What follows the prefix is
  \<^item> the first comma-separated entry of the forwarded-address header, when the header is
    present and not empty: the text before the first comma, whatever follows it;
  \<^item> the connection address, when the header is missing or empty and the address is
    present and not empty;
  \<^item> \<^verbatim>\<open>unknown\<close>, when both are missing or empty.
\<close>

theorem key_derivation:
  "(\<forall>f. x_forwarded_for request = Some f \<and> f \<noteq> [] \<longrightarrow>
        getRateLimitKey request = ''rate_limit:'' @ first_entry (split CHR '','' f) \<and>
        first_entry (split CHR '','' f) = takeWhile (\<lambda>c. c \<noteq> CHR '','') f) \<and>
   (\<forall>e rest. x_forwarded_for request = Some (e @ CHR '','' # rest) \<and> CHR '','' \<notin> set e \<longrightarrow>
        getRateLimitKey request = ''rate_limit:'' @ e) \<and>
   (\<forall>a. (x_forwarded_for request = None \<or> x_forwarded_for request = Some []) \<and>
        ip request = Some a \<and> a \<noteq> [] \<longrightarrow>
        getRateLimitKey request = ''rate_limit:'' @ a) \<and>
   ((x_forwarded_for request = None \<or> x_forwarded_for request = Some []) \<and>
    (ip request = None \<or> ip request = Some []) \<longrightarrow>
        getRateLimitKey request = ''rate_limit:unknown'') \<and>
   (\<exists>addr. getRateLimitKey request = ''rate_limit:'' @ addr)"
proof (intro conjI allI impI)
  fix f assume "x_forwarded_for request = Some f \<and> f \<noteq> []"
  then show "getRateLimitKey request = ''rate_limit:'' @ first_entry (split CHR '','' f)"
    by (simp add: getRateLimitKey_def)
next
  fix f show "first_entry (split CHR '','' f) = takeWhile (\<lambda>c. c \<noteq> CHR '','') f"
    by (rule first_entry_split)
next
  fix e rest assume "x_forwarded_for request = Some (e @ CHR '','' # rest) \<and> CHR '','' \<notin> set e"
  then show "getRateLimitKey request = ''rate_limit:'' @ e"
    by (auto simp: getRateLimitKey_def first_entry_split takeWhile_tail simp del: split.simps)
next
  fix a assume "(x_forwarded_for request = None \<or> x_forwarded_for request = Some []) \<and>
        ip request = Some a \<and> a \<noteq> []"
  then show "getRateLimitKey request = ''rate_limit:'' @ a"
    by (auto simp: getRateLimitKey_def)
next
  assume "(x_forwarded_for request = None \<or> x_forwarded_for request = Some []) \<and>
    (ip request = None \<or> ip request = Some [])"
  then show "getRateLimitKey request = ''rate_limit:unknown''"
    by (auto simp: getRateLimitKey_def)
next
  show "\<exists>addr. getRateLimitKey request = ''rate_limit:'' @ addr"
    by (simp add: getRateLimitKey_def Let_def)
qed

theorem key_derivation_witness:
  "getRateLimitKey \<lparr>pathname = ''/api/jobs'', x_forwarded_for = Some ''1.2.3.4, 5.6.7.8'', ip = Some ''10.0.0.1''\<rparr>
     = ''rate_limit:1.2.3.4'' \<and>
   getRateLimitKey \<lparr>pathname = ''/api/jobs'', x_forwarded_for = None, ip = Some ''10.0.0.1''\<rparr>
     = ''rate_limit:10.0.0.1'' \<and>
   getRateLimitKey \<lparr>pathname = ''/api/jobs'', x_forwarded_for = Some '''', ip = Some ''10.0.0.1''\<rparr>
     = ''rate_limit:10.0.0.1'' \<and>
   getRateLimitKey \<lparr>pathname = ''/api/jobs'', x_forwarded_for = None, ip = None\<rparr>
     = ''rate_limit:unknown'' \<and>
   getRateLimitKey \<lparr>pathname = ''/api/jobs'', x_forwarded_for = None, ip = Some ''''\<rparr>
     = ''rate_limit:unknown''"
proof -
  have a: "getRateLimitKey \<lparr>pathname = ''/api/jobs'', x_forwarded_for = Some ''1.2.3.4, 5.6.7.8'', ip = Some ''10.0.0.1''\<rparr>
     = ''rate_limit:1.2.3.4''"
    using key_derivation [of "\<lparr>pathname = ''/api/jobs'', x_forwarded_for = Some ''1.2.3.4, 5.6.7.8'', ip = Some ''10.0.0.1''\<rparr>"]
    by simp
  have b: "getRateLimitKey \<lparr>pathname = ''/api/jobs'', x_forwarded_for = None, ip = Some ''10.0.0.1''\<rparr>
     = ''rate_limit:10.0.0.1''"
    using key_derivation [of "\<lparr>pathname = ''/api/jobs'', x_forwarded_for = None, ip = Some ''10.0.0.1''\<rparr>"]
    by simp
  have c: "getRateLimitKey \<lparr>pathname = ''/api/jobs'', x_forwarded_for = Some '''', ip = Some ''10.0.0.1''\<rparr>
     = ''rate_limit:10.0.0.1''"
    using key_derivation [of "\<lparr>pathname = ''/api/jobs'', x_forwarded_for = Some '''', ip = Some ''10.0.0.1''\<rparr>"]
    by simp
  have d: "getRateLimitKey \<lparr>pathname = ''/api/jobs'', x_forwarded_for = None, ip = None\<rparr>
     = ''rate_limit:unknown''"
    using key_derivation [of "\<lparr>pathname = ''/api/jobs'', x_forwarded_for = None, ip = None\<rparr>"]
    by simp
  have e: "getRateLimitKey \<lparr>pathname = ''/api/jobs'', x_forwarded_for = None, ip = Some ''''\<rparr>
     = ''rate_limit:unknown''"
    using key_derivation [of "\<lparr>pathname = ''/api/jobs'', x_forwarded_for = None, ip = Some ''''\<rparr>"]
    by simp
  from a b c d e show ?thesis by simp
qed

end
